theory Spec2Isabelle
  imports Main
begin

section \<open>JavaScript strings: \<open>trim\<close> and \<open>toUpperCase\<close>\<close>

text \<open>
  A JavaScript string is modelled by its sequence of Unicode code points (what
  \<open>StringToCodePoints\<close> of ECMA-262 yields; a lone surrogate is its own code point).
  Field names and messages, which the source only ever writes as literals, are HOL
  strings; \<open>lit\<close> turns an ASCII literal into a JavaScript string.
\<close>

type_synonym jsstring = "nat list"

definition lit :: "string \<Rightarrow> jsstring" where
  "lit s = map of_char s"

text \<open>
  \<open>String.prototype.trim\<close> removes, from both ends, the code points of the
  \<open>WhiteSpace\<close> and \<open>LineTerminator\<close> productions of ECMA-262: TAB, LF, VT, FF, CR,
  SPACE, NBSP, the other members of general category Zs, LS, PS and ZWNBSP.
\<close>

definition is_whitespace :: "nat \<Rightarrow> bool" where
  "is_whitespace c =
     (c \<in> set [0x9, 0xA, 0xB, 0xC, 0xD, 0x20, 0xA0, 0x1680,
               0x2028, 0x2029, 0x202F, 0x205F, 0x3000, 0xFEFF]
      \<or> (0x2000 \<le> c \<and> c \<le> 0x200A))"

definition trim :: "jsstring \<Rightarrow> jsstring" where
  "trim s = rev (dropWhile is_whitespace (rev (dropWhile is_whitespace s)))"

text \<open>
  \<open>String.prototype.toUpperCase\<close> replaces every code point by its locale-insensitive
  full upper-case mapping, which may be several code points long. The Basic Latin block
  is written out. The mapping of all other code points is the runtime's Unicode table
  (UnicodeData.txt and SpecialCasing.txt), taken as the parameter \<open>tbl\<close>.
\<close>

definition upper_cp :: "(nat \<Rightarrow> nat list) \<Rightarrow> nat \<Rightarrow> nat list" where
  "upper_cp tbl c =
     (if c < 128 then (if 97 \<le> c \<and> c \<le> 122 then [c - 32] else [c]) else tbl c)"

definition toUpperCase :: "(nat \<Rightarrow> nat list) \<Rightarrow> jsstring \<Rightarrow> jsstring" where
  "toUpperCase tbl s = concat (map (upper_cp tbl) s)"

text \<open>
  What the idempotence of the normalisation needs of the runtime's table: a code point
  produced by an upper-case mapping is its own upper case, and the mapping of a code
  point that is not white space is not empty and neither starts nor ends with white space.
\<close>

definition case_table_stable :: "(nat \<Rightarrow> nat list) \<Rightarrow> bool" where
  "case_table_stable tbl =
     (\<forall>c. 128 \<le> c \<longrightarrow>
        (\<forall>d \<in> set (tbl c). upper_cp tbl d = [d]) \<and>
        (\<not> is_whitespace c \<longrightarrow>
           tbl c \<noteq> [] \<and> \<not> is_whitespace (hd (tbl c)) \<and> \<not> is_whitespace (last (tbl c))))"

text \<open>
  The runtime's table, for the code points from U+0080 on: the upper-case mappings of
  the Unicode Character Database, version 14.0. \<open>simple_upper\<close> holds the
  single-code-point mappings of UnicodeData.txt in runs \<open>(first, last, step, image of
  first)\<close>: the code points \<open>first\<close>, \<open>first + step\<close>, ... up to \<open>last\<close> map to
  \<open>image of first\<close>, \<open>image of first + step\<close>, ... in turn. \<open>special_upper\<close> holds the
  unconditional mappings of SpecialCasing.txt, which yield several code points and take
  precedence. A code point in neither list is its own upper case.
\<close>

definition simple_upper :: "(nat \<times> nat \<times> nat \<times> nat) list" where
  "simple_upper =
    [(0xB5, 0xB5, 1, 0x39C), (0xE0, 0xF6, 1, 0xC0), (0xF8, 0xFE, 1, 0xD8),
     (0xFF, 0xFF, 1, 0x178), (0x101, 0x12F, 2, 0x100), (0x131, 0x131, 1, 0x49),
     (0x133, 0x137, 2, 0x132), (0x13A, 0x148, 2, 0x139), (0x14B, 0x177, 2, 0x14A),
     (0x17A, 0x17E, 2, 0x179), (0x17F, 0x17F, 1, 0x53), (0x180, 0x180, 1, 0x243),
     (0x183, 0x185, 2, 0x182), (0x188, 0x188, 1, 0x187), (0x18C, 0x18C, 1, 0x18B),
     (0x192, 0x192, 1, 0x191), (0x195, 0x195, 1, 0x1F6), (0x199, 0x199, 1, 0x198),
     (0x19A, 0x19A, 1, 0x23D), (0x19E, 0x19E, 1, 0x220), (0x1A1, 0x1A5, 2, 0x1A0),
     (0x1A8, 0x1A8, 1, 0x1A7), (0x1AD, 0x1AD, 1, 0x1AC), (0x1B0, 0x1B0, 1, 0x1AF),
     (0x1B4, 0x1B6, 2, 0x1B3), (0x1B9, 0x1B9, 1, 0x1B8), (0x1BD, 0x1BD, 1, 0x1BC),
     (0x1BF, 0x1BF, 1, 0x1F7), (0x1C5, 0x1C5, 1, 0x1C4), (0x1C6, 0x1C6, 1, 0x1C4),
     (0x1C8, 0x1C8, 1, 0x1C7), (0x1C9, 0x1C9, 1, 0x1C7), (0x1CB, 0x1CB, 1, 0x1CA),
     (0x1CC, 0x1CC, 1, 0x1CA), (0x1CE, 0x1DC, 2, 0x1CD), (0x1DD, 0x1DD, 1, 0x18E),
     (0x1DF, 0x1EF, 2, 0x1DE), (0x1F2, 0x1F2, 1, 0x1F1), (0x1F3, 0x1F3, 1, 0x1F1),
     (0x1F5, 0x1F5, 1, 0x1F4), (0x1F9, 0x21F, 2, 0x1F8), (0x223, 0x233, 2, 0x222),
     (0x23C, 0x23C, 1, 0x23B), (0x23F, 0x240, 1, 0x2C7E), (0x242, 0x242, 1, 0x241),
     (0x247, 0x24F, 2, 0x246), (0x250, 0x250, 1, 0x2C6F), (0x251, 0x251, 1, 0x2C6D),
     (0x252, 0x252, 1, 0x2C70), (0x253, 0x253, 1, 0x181), (0x254, 0x254, 1, 0x186),
     (0x256, 0x257, 1, 0x189), (0x259, 0x259, 1, 0x18F), (0x25B, 0x25B, 1, 0x190),
     (0x25C, 0x25C, 1, 0xA7AB), (0x260, 0x260, 1, 0x193), (0x261, 0x261, 1, 0xA7AC),
     (0x263, 0x263, 1, 0x194), (0x265, 0x265, 1, 0xA78D), (0x266, 0x266, 1, 0xA7AA),
     (0x268, 0x268, 1, 0x197), (0x269, 0x269, 1, 0x196), (0x26A, 0x26A, 1, 0xA7AE),
     (0x26B, 0x26B, 1, 0x2C62), (0x26C, 0x26C, 1, 0xA7AD), (0x26F, 0x26F, 1, 0x19C),
     (0x271, 0x271, 1, 0x2C6E), (0x272, 0x272, 1, 0x19D), (0x275, 0x275, 1, 0x19F),
     (0x27D, 0x27D, 1, 0x2C64), (0x280, 0x280, 1, 0x1A6), (0x282, 0x282, 1, 0xA7C5),
     (0x283, 0x283, 1, 0x1A9), (0x287, 0x287, 1, 0xA7B1), (0x288, 0x288, 1, 0x1AE),
     (0x289, 0x289, 1, 0x244), (0x28A, 0x28B, 1, 0x1B1), (0x28C, 0x28C, 1, 0x245),
     (0x292, 0x292, 1, 0x1B7), (0x29D, 0x29D, 1, 0xA7B2), (0x29E, 0x29E, 1, 0xA7B0),
     (0x345, 0x345, 1, 0x399), (0x371, 0x373, 2, 0x370), (0x377, 0x377, 1, 0x376),
     (0x37B, 0x37D, 1, 0x3FD), (0x3AC, 0x3AC, 1, 0x386), (0x3AD, 0x3AF, 1, 0x388),
     (0x3B1, 0x3C1, 1, 0x391), (0x3C2, 0x3C2, 1, 0x3A3), (0x3C3, 0x3CB, 1, 0x3A3),
     (0x3CC, 0x3CC, 1, 0x38C), (0x3CD, 0x3CE, 1, 0x38E), (0x3D0, 0x3D0, 1, 0x392),
     (0x3D1, 0x3D1, 1, 0x398), (0x3D5, 0x3D5, 1, 0x3A6), (0x3D6, 0x3D6, 1, 0x3A0),
     (0x3D7, 0x3D7, 1, 0x3CF), (0x3D9, 0x3EF, 2, 0x3D8), (0x3F0, 0x3F0, 1, 0x39A),
     (0x3F1, 0x3F1, 1, 0x3A1), (0x3F2, 0x3F2, 1, 0x3F9), (0x3F3, 0x3F3, 1, 0x37F),
     (0x3F5, 0x3F5, 1, 0x395), (0x3F8, 0x3F8, 1, 0x3F7), (0x3FB, 0x3FB, 1, 0x3FA),
     (0x430, 0x44F, 1, 0x410), (0x450, 0x45F, 1, 0x400), (0x461, 0x481, 2, 0x460),
     (0x48B, 0x4BF, 2, 0x48A), (0x4C2, 0x4CE, 2, 0x4C1), (0x4CF, 0x4CF, 1, 0x4C0),
     (0x4D1, 0x52F, 2, 0x4D0), (0x561, 0x586, 1, 0x531), (0x10D0, 0x10FA, 1, 0x1C90),
     (0x10FD, 0x10FF, 1, 0x1CBD), (0x13F8, 0x13FD, 1, 0x13F0), (0x1C80, 0x1C80, 1, 0x412),
     (0x1C81, 0x1C81, 1, 0x414), (0x1C82, 0x1C82, 1, 0x41E), (0x1C83, 0x1C84, 1, 0x421),
     (0x1C85, 0x1C85, 1, 0x422), (0x1C86, 0x1C86, 1, 0x42A), (0x1C87, 0x1C87, 1, 0x462),
     (0x1C88, 0x1C88, 1, 0xA64A), (0x1D79, 0x1D79, 1, 0xA77D), (0x1D7D, 0x1D7D, 1, 0x2C63),
     (0x1D8E, 0x1D8E, 1, 0xA7C6), (0x1E01, 0x1E95, 2, 0x1E00), (0x1E9B, 0x1E9B, 1, 0x1E60),
     (0x1EA1, 0x1EFF, 2, 0x1EA0), (0x1F00, 0x1F07, 1, 0x1F08), (0x1F10, 0x1F15, 1, 0x1F18),
     (0x1F20, 0x1F27, 1, 0x1F28), (0x1F30, 0x1F37, 1, 0x1F38), (0x1F40, 0x1F45, 1, 0x1F48),
     (0x1F51, 0x1F57, 2, 0x1F59), (0x1F60, 0x1F67, 1, 0x1F68), (0x1F70, 0x1F71, 1, 0x1FBA),
     (0x1F72, 0x1F75, 1, 0x1FC8), (0x1F76, 0x1F77, 1, 0x1FDA), (0x1F78, 0x1F79, 1, 0x1FF8),
     (0x1F7A, 0x1F7B, 1, 0x1FEA), (0x1F7C, 0x1F7D, 1, 0x1FFA), (0x1FB0, 0x1FB1, 1, 0x1FB8),
     (0x1FBE, 0x1FBE, 1, 0x399), (0x1FD0, 0x1FD1, 1, 0x1FD8), (0x1FE0, 0x1FE1, 1, 0x1FE8),
     (0x1FE5, 0x1FE5, 1, 0x1FEC), (0x214E, 0x214E, 1, 0x2132), (0x2170, 0x217F, 1, 0x2160),
     (0x2184, 0x2184, 1, 0x2183), (0x24D0, 0x24E9, 1, 0x24B6), (0x2C30, 0x2C5F, 1, 0x2C00),
     (0x2C61, 0x2C61, 1, 0x2C60), (0x2C65, 0x2C65, 1, 0x23A), (0x2C66, 0x2C66, 1, 0x23E),
     (0x2C68, 0x2C6C, 2, 0x2C67), (0x2C73, 0x2C73, 1, 0x2C72), (0x2C76, 0x2C76, 1, 0x2C75),
     (0x2C81, 0x2CE3, 2, 0x2C80), (0x2CEC, 0x2CEE, 2, 0x2CEB), (0x2CF3, 0x2CF3, 1, 0x2CF2),
     (0x2D00, 0x2D25, 1, 0x10A0), (0x2D27, 0x2D27, 1, 0x10C7), (0x2D2D, 0x2D2D, 1, 0x10CD),
     (0xA641, 0xA66D, 2, 0xA640), (0xA681, 0xA69B, 2, 0xA680), (0xA723, 0xA72F, 2, 0xA722),
     (0xA733, 0xA76F, 2, 0xA732), (0xA77A, 0xA77C, 2, 0xA779), (0xA77F, 0xA787, 2, 0xA77E),
     (0xA78C, 0xA78C, 1, 0xA78B), (0xA791, 0xA793, 2, 0xA790), (0xA794, 0xA794, 1, 0xA7C4),
     (0xA797, 0xA7A9, 2, 0xA796), (0xA7B5, 0xA7C3, 2, 0xA7B4), (0xA7C8, 0xA7CA, 2, 0xA7C7),
     (0xA7D1, 0xA7D1, 1, 0xA7D0), (0xA7D7, 0xA7D9, 2, 0xA7D6), (0xA7F6, 0xA7F6, 1, 0xA7F5),
     (0xAB53, 0xAB53, 1, 0xA7B3), (0xAB70, 0xABBF, 1, 0x13A0), (0xFF41, 0xFF5A, 1, 0xFF21),
     (0x10428, 0x1044F, 1, 0x10400), (0x104D8, 0x104FB, 1, 0x104B0),
     (0x10597, 0x105A1, 1, 0x10570), (0x105A3, 0x105B1, 1, 0x1057C),
     (0x105B3, 0x105B9, 1, 0x1058C), (0x105BB, 0x105BC, 1, 0x10594),
     (0x10CC0, 0x10CF2, 1, 0x10C80), (0x118C0, 0x118DF, 1, 0x118A0),
     (0x16E60, 0x16E7F, 1, 0x16E40), (0x1E922, 0x1E943, 1, 0x1E900)]"

definition special_upper :: "(nat \<times> nat list) list" where
  "special_upper =
    [(0xDF, [0x53, 0x53]), (0x149, [0x2BC, 0x4E]), (0x1F0, [0x4A, 0x30C]),
     (0x390, [0x399, 0x308, 0x301]), (0x3B0, [0x3A5, 0x308, 0x301]), (0x587, [0x535, 0x552]),
     (0x1E96, [0x48, 0x331]), (0x1E97, [0x54, 0x308]), (0x1E98, [0x57, 0x30A]),
     (0x1E99, [0x59, 0x30A]), (0x1E9A, [0x41, 0x2BE]), (0x1F50, [0x3A5, 0x313]),
     (0x1F52, [0x3A5, 0x313, 0x300]), (0x1F54, [0x3A5, 0x313, 0x301]),
     (0x1F56, [0x3A5, 0x313, 0x342]), (0x1F80, [0x1F08, 0x399]), (0x1F81, [0x1F09, 0x399]),
     (0x1F82, [0x1F0A, 0x399]), (0x1F83, [0x1F0B, 0x399]), (0x1F84, [0x1F0C, 0x399]),
     (0x1F85, [0x1F0D, 0x399]), (0x1F86, [0x1F0E, 0x399]), (0x1F87, [0x1F0F, 0x399]),
     (0x1F88, [0x1F08, 0x399]), (0x1F89, [0x1F09, 0x399]), (0x1F8A, [0x1F0A, 0x399]),
     (0x1F8B, [0x1F0B, 0x399]), (0x1F8C, [0x1F0C, 0x399]), (0x1F8D, [0x1F0D, 0x399]),
     (0x1F8E, [0x1F0E, 0x399]), (0x1F8F, [0x1F0F, 0x399]), (0x1F90, [0x1F28, 0x399]),
     (0x1F91, [0x1F29, 0x399]), (0x1F92, [0x1F2A, 0x399]), (0x1F93, [0x1F2B, 0x399]),
     (0x1F94, [0x1F2C, 0x399]), (0x1F95, [0x1F2D, 0x399]), (0x1F96, [0x1F2E, 0x399]),
     (0x1F97, [0x1F2F, 0x399]), (0x1F98, [0x1F28, 0x399]), (0x1F99, [0x1F29, 0x399]),
     (0x1F9A, [0x1F2A, 0x399]), (0x1F9B, [0x1F2B, 0x399]), (0x1F9C, [0x1F2C, 0x399]),
     (0x1F9D, [0x1F2D, 0x399]), (0x1F9E, [0x1F2E, 0x399]), (0x1F9F, [0x1F2F, 0x399]),
     (0x1FA0, [0x1F68, 0x399]), (0x1FA1, [0x1F69, 0x399]), (0x1FA2, [0x1F6A, 0x399]),
     (0x1FA3, [0x1F6B, 0x399]), (0x1FA4, [0x1F6C, 0x399]), (0x1FA5, [0x1F6D, 0x399]),
     (0x1FA6, [0x1F6E, 0x399]), (0x1FA7, [0x1F6F, 0x399]), (0x1FA8, [0x1F68, 0x399]),
     (0x1FA9, [0x1F69, 0x399]), (0x1FAA, [0x1F6A, 0x399]), (0x1FAB, [0x1F6B, 0x399]),
     (0x1FAC, [0x1F6C, 0x399]), (0x1FAD, [0x1F6D, 0x399]), (0x1FAE, [0x1F6E, 0x399]),
     (0x1FAF, [0x1F6F, 0x399]), (0x1FB2, [0x1FBA, 0x399]), (0x1FB3, [0x391, 0x399]),
     (0x1FB4, [0x386, 0x399]), (0x1FB6, [0x391, 0x342]), (0x1FB7, [0x391, 0x342, 0x399]),
     (0x1FBC, [0x391, 0x399]), (0x1FC2, [0x1FCA, 0x399]), (0x1FC3, [0x397, 0x399]),
     (0x1FC4, [0x389, 0x399]), (0x1FC6, [0x397, 0x342]), (0x1FC7, [0x397, 0x342, 0x399]),
     (0x1FCC, [0x397, 0x399]), (0x1FD2, [0x399, 0x308, 0x300]),
     (0x1FD3, [0x399, 0x308, 0x301]), (0x1FD6, [0x399, 0x342]),
     (0x1FD7, [0x399, 0x308, 0x342]), (0x1FE2, [0x3A5, 0x308, 0x300]),
     (0x1FE3, [0x3A5, 0x308, 0x301]), (0x1FE4, [0x3A1, 0x313]), (0x1FE6, [0x3A5, 0x342]),
     (0x1FE7, [0x3A5, 0x308, 0x342]), (0x1FF2, [0x1FFA, 0x399]), (0x1FF3, [0x3A9, 0x399]),
     (0x1FF4, [0x38F, 0x399]), (0x1FF6, [0x3A9, 0x342]), (0x1FF7, [0x3A9, 0x342, 0x399]),
     (0x1FFC, [0x3A9, 0x399]), (0xFB00, [0x46, 0x46]), (0xFB01, [0x46, 0x49]),
     (0xFB02, [0x46, 0x4C]), (0xFB03, [0x46, 0x46, 0x49]), (0xFB04, [0x46, 0x46, 0x4C]),
     (0xFB05, [0x53, 0x54]), (0xFB06, [0x53, 0x54]), (0xFB13, [0x544, 0x546]),
     (0xFB14, [0x544, 0x535]), (0xFB15, [0x544, 0x53B]), (0xFB16, [0x54E, 0x546]),
     (0xFB17, [0x544, 0x53D])]"

fun range_upper :: "(nat \<times> nat \<times> nat \<times> nat) list \<Rightarrow> nat \<Rightarrow> nat list option" where
  "range_upper [] c = None"
| "range_upper ((lo, hi, step, tlo) # rs) c =
     (if lo \<le> c \<and> c \<le> hi \<and> (c - lo) mod step = 0 then Some [tlo + (c - lo)]
      else range_upper rs c)"

definition unicode_table :: "nat \<Rightarrow> nat list" where
  "unicode_table c =
     (case map_of special_upper c of
        Some u \<Rightarrow> u
      | None \<Rightarrow> (case range_upper simple_upper c of Some u \<Rightarrow> u | None \<Rightarrow> [c]))"

text \<open>
  What the proof that \<open>unicode_table\<close> is stable computes with. A segment
  \<open>(lo, hi, step)\<close> stands for the code points \<open>lo\<close>, \<open>lo + step\<close>, ... up to \<open>hi\<close>.
  The mapped segments cover every code point that \<open>toUpperCase\<close> changes (the small
  letters of Basic Latin included), the white-space segments every code point that
  \<open>trim\<close> removes, and the images every code point that a mapping produces.
  Two segments are \<open>apart\<close> when one ends before the other starts, or when their code
  points differ in parity.
\<close>

type_synonym segment = "nat \<times> nat \<times> nat"

fun in_segment :: "nat \<Rightarrow> segment \<Rightarrow> bool" where
  "in_segment c (lo, hi, step) = (lo \<le> c \<and> c \<le> hi \<and> (c - lo) mod step = 0)"

definition mapped_segments :: "segment list" where
  "mapped_segments =
     (97, 122, 1) # map (\<lambda>(lo, hi, step, tlo). (lo, hi, step)) simple_upper
       @ map (\<lambda>(c, u). (c, c, 1)) special_upper"

definition whitespace_segments :: "segment list" where
  "whitespace_segments =
     [(0x9, 0xD, 1), (0x20, 0x20, 1), (0xA0, 0xA0, 1), (0x1680, 0x1680, 1),
      (0x2000, 0x200A, 1), (0x2028, 0x2029, 1), (0x202F, 0x202F, 1), (0x205F, 0x205F, 1),
      (0x3000, 0x3000, 1), (0xFEFF, 0xFEFF, 1)]"

definition simple_images :: "segment list" where
  "simple_images = map (\<lambda>(lo, hi, step, tlo). (tlo, tlo + (hi - lo), step)) simple_upper"

definition special_images :: "nat list" where
  "special_images = remdups (concat (map snd special_upper))"

fun apart :: "segment \<Rightarrow> segment \<Rightarrow> bool" where
  "apart (lo1, hi1, s1) (lo2, hi2, s2) =
     (if hi1 < lo2 then True
      else if hi2 < lo1 then True
      else (s1 = 2 \<or> lo1 = hi1) \<and> (s2 = 2 \<or> lo2 = hi2) \<and> lo1 mod 2 \<noteq> lo2 mod 2)"

definition clear_of :: "segment list \<Rightarrow> segment \<Rightarrow> bool" where
  "clear_of as b = list_all (\<lambda>a. apart a b) as"

section \<open>The collaborators of the join-game form\<close>

text \<open>A value thrown by a collaborator (a rejected promise, a throwing call).\<close>

datatype thrown = Thrown string

record GameMetadata =
  game_type :: jsstring

text \<open>What the promise of \<open>getGameMetadata\<close> resolves to: metadata, or a falsy value.\<close>

datatype lookup_value = Null | Undefined | Metadata GameMetadata

fun truthy :: "lookup_value \<Rightarrow> bool" where
  "truthy Null = False"
| "truthy Undefined = False"
| "truthy (Metadata m) = True"

text \<open>The promise resolves, rejects, or never settles.\<close>

datatype lookup_outcome = Resolves lookup_value | Rejects thrown | Pending

text \<open>
  \<open>formData.get("GameID")\<close> is \<open>null\<close> (here \<open>None\<close>), a string or a \<open>File\<close>;
  \<open>toString\<close> of a \<open>File\<close> is \<open>"[object File]"\<close>.
\<close>

datatype FormDataEntryValue = EntryString jsstring | EntryFile

fun toString :: "FormDataEntryValue \<Rightarrow> jsstring" where
  "toString (EntryString s) = s"
| "toString EntryFile = lit ''[object File]''"

text \<open>
  The imports of the component that are not part of this file, and the runtime's case
  table: \<open>validateGameID\<close> of \<open>@/lib/gameFunctions\<close>, \<open>getGameMetadata\<close> of
  \<open>@/lib/apiCalls\<close> (the outcome of the awaited promise), and \<open>router.push\<close>, which
  returns (\<open>None\<close>) or throws.
\<close>

record env =
  uppercase_table :: "nat \<Rightarrow> nat list"
  validateGameID :: "jsstring \<Rightarrow> bool"
  getGameMetadata :: "jsstring \<Rightarrow> lookup_outcome"
  router_push :: "jsstring \<Rightarrow> thrown option"

section \<open>The submit handler of \<open>JoinGameButton\<close>\<close>

text \<open>The two pieces of view state, \<open>useState(false)\<close> and \<open>useState({})\<close>.\<close>

record form_state =
  isLoading :: bool
  errors :: "string \<rightharpoonup> string"

definition initial_state :: form_state where
  "initial_state = \<lparr> isLoading = False, errors = Map.empty \<rparr>"

datatype log_entry =
    LogGameID jsstring
  | LogMetadata lookup_value
  | LogError thrown

text \<open>Everything the handler does to the outside, in the order it does it.\<close>

datatype effect =
    PreventDefault
  | ConsoleLog log_entry
  | SetErrors "string \<rightharpoonup> string"
  | SetIsLoading bool
  | GetGameMetadata jsstring
  | RouterPush jsstring

text \<open>A \<open>useState\<close> setter called with a value replaces the state variable.\<close>

fun apply_effect :: "effect \<Rightarrow> form_state \<Rightarrow> form_state" where
  "apply_effect (SetErrors m) s = s\<lparr>errors := m\<rparr>"
| "apply_effect (SetIsLoading b) s = s\<lparr>isLoading := b\<rparr>"
| "apply_effect PreventDefault s = s"
| "apply_effect (ConsoleLog l) s = s"
| "apply_effect (GetGameMetadata g) s = s"
| "apply_effect (RouterPush p) s = s"

definition run :: "effect list \<Rightarrow> form_state \<Rightarrow> form_state" where
  "run tr s = fold apply_effect tr s"

text \<open>
  \<open>formData.get("GameID")?.toString().trim().toUpperCase() ?? ""\<close>
\<close>

definition normalizeGameID :: "(nat \<Rightarrow> nat list) \<Rightarrow> jsstring \<Rightarrow> jsstring" where
  "normalizeGameID tbl s = toUpperCase tbl (trim s)"

definition gameID_of :: "env \<Rightarrow> FormDataEntryValue option \<Rightarrow> jsstring" where
  "gameID_of E v =
     (case v of
        None \<Rightarrow> []
      | Some e \<Rightarrow> normalizeGameID (uppercase_table E) (toString e))"

text \<open>The template literal \<open>`/${gameMetadata.game_type}/${gameID}`\<close>.\<close>

definition game_path :: "GameMetadata \<Rightarrow> jsstring \<Rightarrow> jsstring" where
  "game_path m gameID = lit ''/'' @ game_type m @ lit ''/'' @ gameID"

text \<open>How a block ends: normally, by a throw, or suspended at an \<open>await\<close> for ever.\<close>

datatype completion = Normal | Throws thrown | Suspended

text \<open>The body of the \<open>try\<close> block.\<close>

definition try_block :: "env \<Rightarrow> jsstring \<Rightarrow> effect list \<times> completion" where
  "try_block E gameID =
     (case getGameMetadata E gameID of
        Pending \<Rightarrow> ([GetGameMetadata gameID], Suspended)
      | Rejects e \<Rightarrow> ([GetGameMetadata gameID], Throws e)
      | Resolves gameMetadata \<Rightarrow>
          (case gameMetadata of
             Metadata m \<Rightarrow>
               ([GetGameMetadata gameID, ConsoleLog (LogMetadata gameMetadata),
                 RouterPush (game_path m gameID)],
                (case router_push E (game_path m gameID) of
                   None \<Rightarrow> Normal
                 | Some e \<Rightarrow> Throws e))
           | _ \<Rightarrow>
               ([GetGameMetadata gameID, ConsoleLog (LogMetadata gameMetadata),
                 SetErrors [''GameID'' \<mapsto> ''Invalid game ID'']],
                Normal)))"

definition catch_block :: "thrown \<Rightarrow> effect list" where
  "catch_block err = [ConsoleLog (LogError err), SetErrors [''GameID'' \<mapsto> ''Invalid game ID'']]"

definition finally_block :: "effect list" where
  "finally_block = [SetIsLoading False]"

text \<open>
  The handler: the effects it performs, and whether it returns (\<open>False\<close> when the
  awaited promise never settles). Of the submitted form the handler reads only
  \<open>formData.get("GameID")\<close>, which is what \<open>formInput\<close> stands for here.
\<close>

definition onSubmit :: "env \<Rightarrow> FormDataEntryValue option \<Rightarrow> effect list \<times> bool" where
  "onSubmit E formInput =
     (let gameID = gameID_of E formInput;
          start = [PreventDefault, ConsoleLog (LogGameID gameID)]
      in if \<not> validateGameID E gameID
         then (start @ [SetErrors [''GameID'' \<mapsto> ''Game IDs need to be a 5 letter string.'']],
               True)
         else
           (let start' = start @ [SetIsLoading True, SetErrors Map.empty];
                (body, c) = try_block E gameID
            in case c of
                 Normal \<Rightarrow> (start' @ body @ finally_block, True)
               | Throws err \<Rightarrow> (start' @ body @ catch_block err @ finally_block, True)
               | Suspended \<Rightarrow> (start' @ body, False)))"

definition trace :: "env \<Rightarrow> FormDataEntryValue option \<Rightarrow> effect list" where
  "trace E formInput = fst (onSubmit E formInput)"

definition returns :: "env \<Rightarrow> FormDataEntryValue option \<Rightarrow> bool" where
  "returns E formInput = snd (onSubmit E formInput)"

text \<open>The view state once the handler has performed all its effects.\<close>

definition state_after :: "env \<Rightarrow> FormDataEntryValue option \<Rightarrow> form_state \<Rightarrow> form_state" where
  "state_after E formInput s = run (trace E formInput) s"

text \<open>\<open>occurs_before a b tr\<close>: after the first \<open>a\<close> of the trace there is a \<open>b\<close>.\<close>

fun occurs_before :: "effect \<Rightarrow> effect \<Rightarrow> effect list \<Rightarrow> bool" where
  "occurs_before a b [] = False"
| "occurs_before a b (x # xs) = (if x = a then b \<in> set xs else occurs_before a b xs)"

definition is_navigation :: "effect \<Rightarrow> bool" where
  "is_navigation e = (case e of RouterPush p \<Rightarrow> True | _ \<Rightarrow> False)"

definition is_lookup :: "effect \<Rightarrow> bool" where
  "is_lookup e = (case e of GetGameMetadata g \<Rightarrow> True | _ \<Rightarrow> False)"

definition is_error_write :: "effect \<Rightarrow> bool" where
  "is_error_write e = (case e of SetErrors m \<Rightarrow> True | _ \<Rightarrow> False)"

text \<open>
  Modelled from the spec: \<open>validateGameID\<close> of \<open>@/lib/gameFunctions\<close>, which is not
  part of this file: true iff the candidate is exactly 5 characters, all alphabetic.
  It only serves as a concrete validator in the examples.
\<close>

definition is_letter :: "nat \<Rightarrow> bool" where
  "is_letter c = ((65 \<le> c \<and> c \<le> 90) \<or> (97 \<le> c \<and> c \<le> 122))"

definition validateGameID_spec :: "jsstring \<Rightarrow> bool" where
  "validateGameID_spec candidate = (length candidate = 5 \<and> list_all is_letter candidate)"

text \<open>
  An environment for the examples: the game \<open>ABCDE\<close> is a trivia game, the lookup of
  \<open>ZZZZZ\<close> resolves to \<open>null\<close>, that of \<open>QQQQQ\<close> rejects, any other never settles, and
  navigation succeeds. In \<open>broken_router_env\<close> navigation throws.
\<close>

definition example_lookup :: "jsstring \<Rightarrow> lookup_outcome" where
  "example_lookup g =
     (if g = lit ''ABCDE'' then Resolves (Metadata \<lparr> game_type = lit ''trivia'' \<rparr>)
      else if g = lit ''ZZZZZ'' then Resolves Null
      else if g = lit ''QQQQQ'' then Rejects (Thrown ''network failure'')
      else Pending)"

definition example_env :: env where
  "example_env =
     \<lparr> uppercase_table = unicode_table, validateGameID = validateGameID_spec,
       getGameMetadata = example_lookup, router_push = (\<lambda>p. None) \<rparr>"

definition broken_router_env :: env where
  "broken_router_env = example_env \<lparr> router_push := (\<lambda>p. Some (Thrown ''push failed'')) \<rparr>"

section \<open>What \<open>JoinGameButton\<close> renders\<close>

record form_props =
  className :: string
  validationErrors :: "string \<rightharpoonup> string"

record input_props =
  input_isRequired :: bool
  input_isDisabled :: bool
  input_label :: string
  input_labelPlacement :: string
  input_name :: string
  input_placeholder :: string

text \<open>The source passes no \<open>isDisabled\<close> to the button: it has its default, \<open>false\<close>.\<close>

record button_props =
  button_color :: string
  button_isLoading :: bool
  button_isDisabled :: bool
  button_type :: string
  button_text :: string

record rendered_form =
  form :: form_props
  input :: input_props
  button :: button_props

definition JoinGameButton :: "form_state \<Rightarrow> rendered_form" where
  "JoinGameButton s =
     \<lparr> form = \<lparr> className = ''w-full max-w-xs'', validationErrors = errors s \<rparr>,
       input = \<lparr> input_isRequired = True, input_isDisabled = isLoading s,
                 input_label = ''GameID'', input_labelPlacement = ''outside'',
                 input_name = ''GameID'',
                 input_placeholder = ''Enter the 5 character GameID'' \<rparr>,
       button = \<lparr> button_color = ''primary'', button_isLoading = isLoading s,
                  button_isDisabled = False, button_type = ''submit'',
                  button_text = ''Join a game!'' \<rparr> \<rparr>"

text \<open>
  When the two controls are disabled. An \<open>Input\<close> of the component library is disabled
  by its \<open>isDisabled\<close>; a \<open>Button\<close> by its \<open>isDisabled\<close> or its \<open>isLoading\<close> (the
  library's button computes \<open>isDisabled || isLoading\<close>).
\<close>

definition input_disabled :: "rendered_form \<Rightarrow> bool" where
  "input_disabled r = input_isDisabled (input r)"

definition button_disabled :: "rendered_form \<Rightarrow> bool" where
  "button_disabled r = (button_isDisabled (button r) \<or> button_isLoading (button r))"

section \<open>The provider composition\<close>

datatype component = HeroUIProvider | ToastProvider | UserProvider | GameProvider

text \<open>
  An element with its props and its children, or the \<open>children\<close> handed to
  \<open>Providers\<close>. The only prop in the source is \<open>navigate\<close>, of type \<open>'n\<close>.
\<close>

datatype ('n, 'c) node =
    Element component "(string \<times> 'n) list" "('n, 'c) node list"
  | Children 'c

definition Providers :: "'n \<Rightarrow> 'c \<Rightarrow> ('n, 'c) node" where
  "Providers push children =
     Element HeroUIProvider [(''navigate'', push)]
       [Element ToastProvider [] [],
        Element UserProvider [] [Element GameProvider [] [Children children]]]"

text \<open>All nodes of a tree, the root first.\<close>

fun subtrees :: "('n, 'c) node \<Rightarrow> ('n, 'c) node list" where
  "subtrees (Children c) = [Children c]"
| "subtrees (Element k ps ns) = Element k ps ns # concat (map subtrees ns)"

text \<open>\<open>encloses k n t\<close>: in \<open>t\<close>, the node \<open>n\<close> lies below an element of component \<open>k\<close>.\<close>

fun below :: "component \<Rightarrow> ('n, 'c) node \<Rightarrow> ('n, 'c) node \<Rightarrow> bool" where
  "below k n (Children c) = False"
| "below k n (Element k' ps ns) = (k' = k \<and> n \<in> set (concat (map subtrees ns)))"

definition encloses :: "component \<Rightarrow> ('n, 'c) node \<Rightarrow> ('n, 'c) node \<Rightarrow> bool" where
  "encloses k n t = list_ex (below k n) (subtrees t)"

text \<open>
  The nesting as the specification words it: \<open>nested_in_order ks c t\<close> holds when
  \<open>t\<close> is the content \<open>c\<close> wrapped in one scope per component of \<open>ks\<close>, outermost first,
  each scope holding the next and nothing else.
\<close>

fun nested_in_order :: "component list \<Rightarrow> 'c \<Rightarrow> ('n, 'c) node \<Rightarrow> bool" where
  "nested_in_order [] c t = (t = Children c)"
| "nested_in_order (k # ks) c (Element k' ps [n]) = (k' = k \<and> nested_in_order ks c n)"
| "nested_in_order (k # ks) c t = False"

section \<open>Properties of the normalisation\<close>

lemma trim_Nil: "trim [] = []"
  by (simp add: trim_def)

lemma trim_prefix: "\<exists>zs. dropWhile is_whitespace s = trim s @ zs"
proof -
  let ?t = "dropWhile is_whitespace s"
  have "rev (takeWhile is_whitespace (rev ?t) @ dropWhile is_whitespace (rev ?t)) = rev (rev ?t)"
    by (simp only: takeWhile_dropWhile_id)
  then have "rev (dropWhile is_whitespace (rev ?t)) @ rev (takeWhile is_whitespace (rev ?t)) = ?t"
    by (simp only: rev_append rev_rev_ident)
  then have "?t = trim s @ rev (takeWhile is_whitespace (rev ?t))"
    by (simp only: trim_def)
  then show ?thesis by blast
qed

lemma trim_hd: "trim s \<noteq> [] \<Longrightarrow> \<not> is_whitespace (hd (trim s))"
proof -
  assume ne: "trim s \<noteq> []"
  obtain zs where z: "dropWhile is_whitespace s = trim s @ zs"
    using trim_prefix by blast
  then have "dropWhile is_whitespace s \<noteq> []" using ne by simp
  then have "\<not> is_whitespace (hd (dropWhile is_whitespace s))"
    by (rule hd_dropWhile)
  then show ?thesis using z ne by simp
qed

lemma trim_last: "trim s \<noteq> [] \<Longrightarrow> \<not> is_whitespace (last (trim s))"
proof -
  assume ne: "trim s \<noteq> []"
  let ?d = "dropWhile is_whitespace (rev (dropWhile is_whitespace s))"
  have d: "?d \<noteq> []" using ne by (simp add: trim_def)
  then have "\<not> is_whitespace (hd ?d)" by (rule hd_dropWhile)
  moreover have "last (trim s) = hd ?d" using d by (simp add: trim_def last_rev)
  ultimately show ?thesis by simp
qed

lemma trim_fixed:
  assumes "xs \<noteq> []" "\<not> is_whitespace (hd xs)" "\<not> is_whitespace (last xs)"
  shows "trim xs = xs"
proof -
  have 1: "dropWhile is_whitespace xs = xs"
    using assms(1,2) by (cases xs) simp_all
  have "rev xs \<noteq> []" "\<not> is_whitespace (hd (rev xs))"
    using assms(1,3) by (simp_all add: hd_rev)
  then have 2: "dropWhile is_whitespace (rev xs) = rev xs"
    by (cases "rev xs") simp_all
  show ?thesis by (simp add: trim_def 1 2)
qed

lemma upper_cp_basic_latin:
  "c < 128 \<Longrightarrow> d \<in> set (upper_cp tbl c) \<Longrightarrow> upper_cp tbl d = [d]"
  by (auto simp: upper_cp_def split: if_splits)

lemma upper_cp_fixed:
  assumes "case_table_stable tbl" "d \<in> set (upper_cp tbl c)"
  shows "upper_cp tbl d = [d]"
proof (cases "c < 128")
  case True
  then show ?thesis using assms(2) by (rule upper_cp_basic_latin)
next
  case False
  then have "upper_cp tbl c = tbl c" "128 \<le> c" by (simp_all add: upper_cp_def)
  then show ?thesis using assms by (simp add: case_table_stable_def)
qed

lemma concat_map_fixed: "(\<And>d. d \<in> set xs \<Longrightarrow> f d = [d]) \<Longrightarrow> concat (map f xs) = xs"
  by (induction xs) simp_all

lemma toUpperCase_idem:
  assumes "case_table_stable tbl"
  shows "toUpperCase tbl (toUpperCase tbl s) = toUpperCase tbl s"
proof -
  have "\<And>d. d \<in> set (toUpperCase tbl s) \<Longrightarrow> upper_cp tbl d = [d]"
    using assms by (auto simp: toUpperCase_def dest: upper_cp_fixed)
  then show ?thesis
    unfolding toUpperCase_def [of tbl "toUpperCase tbl s"] by (rule concat_map_fixed)
qed

lemma is_whitespace_range:
  "is_whitespace d \<Longrightarrow> d \<le> 32 \<or> d = 160 \<or> 5760 \<le> d"
  unfolding is_whitespace_def by (elim disjE) auto

lemma basic_latin_upper_not_whitespace:
  "97 \<le> c \<Longrightarrow> c \<le> 122 \<Longrightarrow> \<not> is_whitespace (c - 32)"
  using is_whitespace_range [of "c - 32"] by auto

lemma upper_cp_ends:
  assumes "case_table_stable tbl" "\<not> is_whitespace c"
  shows "upper_cp tbl c \<noteq> [] \<and> \<not> is_whitespace (hd (upper_cp tbl c))
         \<and> \<not> is_whitespace (last (upper_cp tbl c))"
proof (cases "c < 128")
  case True
  then show ?thesis using assms(2)
    by (simp add: upper_cp_def basic_latin_upper_not_whitespace)
next
  case False
  then have "upper_cp tbl c = tbl c" "128 \<le> c" by (simp_all add: upper_cp_def)
  then show ?thesis using assms by (simp add: case_table_stable_def)
qed

lemma toUpperCase_ends:
  assumes st: "case_table_stable tbl"
    and ne: "xs \<noteq> []" and h: "\<not> is_whitespace (hd xs)" and l: "\<not> is_whitespace (last xs)"
  shows "toUpperCase tbl xs \<noteq> [] \<and> \<not> is_whitespace (hd (toUpperCase tbl xs))
         \<and> \<not> is_whitespace (last (toUpperCase tbl xs))"
proof -
  obtain a as where xs: "xs = a # as" using ne by (cases xs) auto
  obtain bs b where xs': "xs = bs @ [b]" using ne by (cases xs rule: rev_cases) auto
  have a: "upper_cp tbl a \<noteq> [] \<and> \<not> is_whitespace (hd (upper_cp tbl a))"
    using upper_cp_ends [OF st, of a] h xs by simp
  have b: "upper_cp tbl b \<noteq> [] \<and> \<not> is_whitespace (last (upper_cp tbl b))"
    using upper_cp_ends [OF st, of b] l xs' by simp
  have 1: "toUpperCase tbl xs = upper_cp tbl a @ toUpperCase tbl as"
    by (simp add: toUpperCase_def xs)
  have 2: "toUpperCase tbl xs = toUpperCase tbl bs @ upper_cp tbl b"
    by (simp add: toUpperCase_def xs')
  have "toUpperCase tbl xs \<noteq> []" using 1 a by simp
  moreover have "\<not> is_whitespace (hd (toUpperCase tbl xs))" using 1 a by simp
  moreover have "\<not> is_whitespace (last (toUpperCase tbl xs))" using 2 b by simp
  ultimately show ?thesis by blast
qed

lemma normalizeGameID_idem:
  assumes st: "case_table_stable tbl"
  shows "normalizeGameID tbl (normalizeGameID tbl s) = normalizeGameID tbl s"
proof (cases "trim s = []")
  case True
  then show ?thesis by (simp add: normalizeGameID_def toUpperCase_def trim_Nil)
next
  case False
  then have "toUpperCase tbl (trim s) \<noteq> [] \<and> \<not> is_whitespace (hd (toUpperCase tbl (trim s)))
         \<and> \<not> is_whitespace (last (toUpperCase tbl (trim s)))"
    using toUpperCase_ends [OF st] trim_hd trim_last by blast
  then have "trim (toUpperCase tbl (trim s)) = toUpperCase tbl (trim s)"
    by (simp add: trim_fixed)
  then show ?thesis by (simp add: normalizeGameID_def toUpperCase_idem [OF st])
qed

text \<open>
  The table is stable: every image of a segment of \<open>simple_upper\<close> and every code
  point of a mapping of \<open>special_upper\<close> is apart from all mapped segments and all
  white-space segments, by evaluation.
\<close>

lemma special_images_eval:
  "special_images =
     [0x2BC, 0x4E, 0x4A, 0x30C, 0x552, 0x48, 0x331, 0x57, 0x59, 0x30A, 0x41, 0x2BE, 0x1F08,
      0x1F09, 0x1F0A, 0x1F0B, 0x1F0C, 0x1F0D, 0x1F0E, 0x1F0F, 0x1F28, 0x1F29, 0x1F2A,
      0x1F2B, 0x1F2C, 0x1F2D, 0x1F2E, 0x1F2F, 0x1F68, 0x1F69, 0x1F6A, 0x1F6B, 0x1F6C,
      0x1F6D, 0x1F6E, 0x1F6F, 0x1FBA, 0x386, 0x391, 0x1FCA, 0x389, 0x397, 0x300, 0x301,
      0x3A1, 0x313, 0x3A5, 0x308, 0x1FFA, 0x38F, 0x342, 0x3A9, 0x399, 0x49, 0x46, 0x4C,
      0x53, 0x54, 0x535, 0x53B, 0x54E, 0x546, 0x544, 0x53D]"
  by (simp add: special_images_def special_upper_def)

lemmas segment_defs = clear_of_def mapped_segments_def simple_upper_def special_upper_def
  whitespace_segments_def simple_images_def

lemma simple_images_clear_1:
  "list_all (clear_of (mapped_segments @ whitespace_segments)) (take 64 simple_images)"
  by (simp add: segment_defs)

lemma simple_images_clear_2:
  "list_all (clear_of (mapped_segments @ whitespace_segments)) (take 64 (drop 64 simple_images))"
  by (simp add: segment_defs)

lemma simple_images_clear_3:
  "list_all (clear_of (mapped_segments @ whitespace_segments)) (drop 128 simple_images)"
  by (simp add: segment_defs)

lemma special_images_clear:
  "list_all (\<lambda>d. clear_of (mapped_segments @ whitespace_segments) (d, d, 1)) special_images"
  unfolding special_images_eval by (simp add: segment_defs)

lemma special_upper_nonempty: "list_all (\<lambda>(c, u). u \<noteq> []) special_upper"
  by (simp add: special_upper_def)

lemma simple_images_clear:
  assumes "b \<in> set simple_images" "a \<in> set mapped_segments \<union> set whitespace_segments"
  shows "apart a b"
proof -
  have "simple_images =
          take 64 simple_images @ take 64 (drop 64 simple_images) @ drop 128 simple_images"
    by (metis append_take_drop_id drop_drop numeral_Bit0 numeral_Bit0)
  then have "b \<in> set (take 64 simple_images) \<or> b \<in> set (take 64 (drop 64 simple_images))
             \<or> b \<in> set (drop 128 simple_images)"
    using assms(1) by (metis Un_iff set_append)
  then have "clear_of (mapped_segments @ whitespace_segments) b"
    using simple_images_clear_1 simple_images_clear_2 simple_images_clear_3
    by (auto simp: list_all_iff)
  then show ?thesis using assms(2) by (auto simp: clear_of_def list_all_iff)
qed

lemma special_images_apart:
  assumes "d \<in> set special_images" "a \<in> set mapped_segments \<union> set whitespace_segments"
  shows "apart a (d, d, 1)"
  using special_images_clear assms by (auto simp: clear_of_def list_all_iff)

lemma apart_sound: "apart a b \<Longrightarrow> in_segment c a \<Longrightarrow> in_segment c b \<Longrightarrow> False"
proof -
  assume ap: "apart a b" and ia: "in_segment c a" and ib: "in_segment c b"
  obtain lo1 hi1 s1 where a: "a = (lo1, hi1, s1)" by (cases a) auto
  obtain lo2 hi2 s2 where b: "b = (lo2, hi2, s2)" by (cases b) auto
  have r1: "lo1 \<le> c" "c \<le> hi1" "(c - lo1) mod s1 = 0" using ia a by simp_all
  have r2: "lo2 \<le> c" "c \<le> hi2" "(c - lo2) mod s2 = 0" using ib b by simp_all
  have p: "(s1 = 2 \<or> lo1 = hi1) \<and> (s2 = 2 \<or> lo2 = hi2) \<and> lo1 mod 2 \<noteq> lo2 mod 2"
    using ap r1 r2 unfolding a b by (simp split: if_splits)
  have "c mod 2 = lo1 mod 2"
  proof (cases "s1 = 2")
    case True
    then show ?thesis using r1 by presburger
  next
    case False
    then have "lo1 = hi1" using p by simp
    then show ?thesis using r1 by simp
  qed
  moreover have "c mod 2 = lo2 mod 2"
  proof (cases "s2 = 2")
    case True
    then show ?thesis using r2 by presburger
  next
    case False
    then have "lo2 = hi2" using p by simp
    then show ?thesis using r2 by simp
  qed
  ultimately show False using p by simp
qed

lemma range_upper_Some:
  "range_upper rs c = Some u \<Longrightarrow>
     \<exists>lo hi step tlo. (lo, hi, step, tlo) \<in> set rs \<and> in_segment c (lo, hi, step)
        \<and> u = [tlo + (c - lo)]"
proof (induction rs)
  case Nil
  then show ?case by simp
next
  case (Cons r rs)
  obtain lo hi step tlo where r: "r = (lo, hi, step, tlo)" by (cases r) auto
  show ?case
  proof (cases "lo \<le> c \<and> c \<le> hi \<and> (c - lo) mod step = 0")
    case True
    then have "u = [tlo + (c - lo)]" using Cons.prems r by simp
    moreover have "(lo, hi, step, tlo) \<in> set (r # rs)" using r by simp
    moreover have "in_segment c (lo, hi, step)" using True by simp
    ultimately show ?thesis by blast
  next
    case False
    then have "range_upper rs c = Some u"
      using Cons.prems unfolding r by (simp only: range_upper.simps if_False)
    then obtain lo' hi' step' tlo' where
      "(lo', hi', step', tlo') \<in> set rs" "in_segment c (lo', hi', step')"
      "u = [tlo' + (c - lo')]"
      using Cons.IH by blast
    moreover have "(lo', hi', step', tlo') \<in> set (r # rs)" using calculation(1) by simp
    ultimately show ?thesis by blast
  qed
qed

lemma mapped_segments_set:
  "set mapped_segments =
     insert (97, 122, 1)
       ((\<lambda>(lo, hi, step, tlo). (lo, hi, step)) ` set simple_upper
        \<union> (\<lambda>(c, u). (c, c, 1)) ` set special_upper)"
  unfolding mapped_segments_def by (simp only: list.set set_append set_map)

lemma mapped_cover:
  assumes "upper_cp unicode_table d \<noteq> [d]"
  shows "\<exists>a \<in> set mapped_segments. in_segment d a"
proof (cases "d < 128")
  case True
  then have "97 \<le> d \<and> d \<le> 122" using assms by (simp add: upper_cp_def split: if_splits)
  then have "in_segment d (97, 122, 1)" by simp
  moreover have "(97, 122, 1) \<in> set mapped_segments"
    unfolding mapped_segments_set by (rule insertI1)
  ultimately show ?thesis by blast
next
  case False
  then have t: "unicode_table d \<noteq> [d]" using assms by (simp add: upper_cp_def)
  show ?thesis
  proof (cases "map_of special_upper d")
    case (Some u)
    then have "(d, u) \<in> set special_upper" by (rule map_of_SomeD)
    then have "(\<lambda>(c, u). (c, c, 1)) (d, u) \<in> (\<lambda>(c, u). (c, c, 1)) ` set special_upper"
      by (rule imageI)
    then have "(d, d, 1) \<in> (\<lambda>(c, u). (c, c, 1)) ` set special_upper"
      by (simp only: prod.case)
    then have "(d, d, 1) \<in> set mapped_segments"
      unfolding mapped_segments_set by blast
    moreover have "in_segment d (d, d, 1)" by simp
    ultimately show ?thesis by blast
  next
    case None
    then obtain u where "range_upper simple_upper d = Some u"
      using t by (cases "range_upper simple_upper d") (simp_all add: unicode_table_def)
    then obtain lo hi step tlo where
      r: "(lo, hi, step, tlo) \<in> set simple_upper" "in_segment d (lo, hi, step)"
      using range_upper_Some by blast
    have "(\<lambda>(lo, hi, step, tlo). (lo, hi, step)) (lo, hi, step, tlo)
            \<in> (\<lambda>(lo, hi, step, tlo). (lo, hi, step)) ` set simple_upper"
      using r(1) by (rule imageI)
    then have "(lo, hi, step) \<in> (\<lambda>(lo, hi, step, tlo). (lo, hi, step)) ` set simple_upper"
      by (simp only: prod.case)
    then have "(lo, hi, step) \<in> set mapped_segments"
      unfolding mapped_segments_set by blast
    then show ?thesis using r(2) by blast
  qed
qed

lemma whitespace_cover:
  assumes "is_whitespace d"
  shows "\<exists>a \<in> set whitespace_segments. in_segment d a"
proof -
  have "(9 \<le> d \<and> d \<le> 13) \<or> d = 32 \<or> d = 160 \<or> d = 5760 \<or> (8192 \<le> d \<and> d \<le> 8202)
        \<or> (8232 \<le> d \<and> d \<le> 8233) \<or> d = 8239 \<or> d = 8287 \<or> d = 12288 \<or> d = 65279"
    using assms unfolding is_whitespace_def by (elim disjE) auto
  then have "in_segment d (9, 13, 1) \<or> in_segment d (32, 32, 1) \<or> in_segment d (160, 160, 1)
        \<or> in_segment d (5760, 5760, 1) \<or> in_segment d (8192, 8202, 1)
        \<or> in_segment d (8232, 8233, 1) \<or> in_segment d (8239, 8239, 1)
        \<or> in_segment d (8287, 8287, 1) \<or> in_segment d (12288, 12288, 1)
        \<or> in_segment d (65279, 65279, 1)"
    by (elim disjE) simp_all
  moreover have "set whitespace_segments =
      {(9, 13, 1), (32, 32, 1), (160, 160, 1), (5760, 5760, 1), (8192, 8202, 1),
       (8232, 8233, 1), (8239, 8239, 1), (8287, 8287, 1), (12288, 12288, 1), (65279, 65279, 1)}"
    by (simp add: whitespace_segments_def)
  ultimately show ?thesis by blast
qed

lemma image_cover:
  assumes "d \<in> set (unicode_table c)"
  shows "(unicode_table c = [c] \<and> d = c)
         \<or> (\<exists>b \<in> set simple_images. in_segment d b) \<or> d \<in> set special_images"
proof (cases "map_of special_upper c")
  case (Some u)
  then have "(c, u) \<in> set special_upper" by (rule map_of_SomeD)
  moreover have "d \<in> set u" using assms Some by (simp add: unicode_table_def)
  ultimately have "d \<in> set special_images" unfolding special_images_def by force
  then show ?thesis by simp
next
  case None
  show ?thesis
  proof (cases "range_upper simple_upper c")
    case None' : None
    then show ?thesis using assms None by (simp add: unicode_table_def)
  next
    case (Some u)
    then obtain lo hi step tlo where
      r: "(lo, hi, step, tlo) \<in> set simple_upper" "in_segment c (lo, hi, step)"
         "u = [tlo + (c - lo)]"
      using range_upper_Some by blast
    then have d: "d = tlo + (c - lo)" using assms None Some by (simp add: unicode_table_def)
    have "(tlo, tlo + (hi - lo), step) \<in> set simple_images"
      unfolding simple_images_def using r(1) by force
    moreover have "in_segment d (tlo, tlo + (hi - lo), step)"
    proof -
      have c: "lo \<le> c" "c \<le> hi" "(c - lo) mod step = 0" using r(2) by simp_all
      have "c - lo \<le> hi - lo" using c(2) by (rule diff_le_mono)
      then have "tlo \<le> d" "d \<le> tlo + (hi - lo)" "d - tlo = c - lo" using d by simp_all
      then show ?thesis using c(3) by (simp only: in_segment.simps)
    qed
    ultimately show ?thesis by blast
  qed
qed

lemma image_clear:
  assumes "d \<in> set (unicode_table c)" "unicode_table c \<noteq> [c]"
    and "a \<in> set mapped_segments \<union> set whitespace_segments"
  shows "\<not> in_segment d a"
proof
  assume i: "in_segment d a"
  from image_cover [OF assms(1)] assms(2)
  consider b where "b \<in> set simple_images" "in_segment d b" | "d \<in> set special_images"
    by blast
  then show False
  proof cases
    case 1
    then show ?thesis using simple_images_clear [OF 1(1) assms(3)] i apart_sound by blast
  next
    case 2
    have "in_segment d (d, d, 1)" by simp
    then show ?thesis using special_images_apart [OF 2 assms(3)] i apart_sound by blast
  qed
qed

lemma unicode_table_nonempty: "unicode_table c \<noteq> []"
proof (cases "map_of special_upper c")
  case (Some u)
  then have "(c, u) \<in> set special_upper" by (rule map_of_SomeD)
  then have "u \<noteq> []" using special_upper_nonempty by (auto simp: list_all_iff)
  then show ?thesis using Some by (simp add: unicode_table_def)
next
  case None
  then show ?thesis
    by (cases "range_upper simple_upper c") (auto simp: unicode_table_def dest: range_upper_Some)
qed

lemma unicode_table_fixed:
  assumes "128 \<le> c" "d \<in> set (unicode_table c)"
  shows "upper_cp unicode_table d = [d]"
proof (cases "unicode_table c = [c]")
  case True
  then show ?thesis using assms by (simp add: upper_cp_def)
next
  case False
  show ?thesis
  proof (rule ccontr)
    assume "upper_cp unicode_table d \<noteq> [d]"
    then obtain a where "a \<in> set mapped_segments" "in_segment d a"
      using mapped_cover by blast
    then show False using image_clear [OF assms(2) False, of a] by simp
  qed
qed

lemma unicode_table_not_whitespace:
  assumes "\<not> is_whitespace c" "d \<in> set (unicode_table c)"
  shows "\<not> is_whitespace d"
proof (cases "unicode_table c = [c]")
  case True
  then show ?thesis using assms by simp
next
  case False
  show ?thesis
  proof
    assume "is_whitespace d"
    then obtain a where "a \<in> set whitespace_segments" "in_segment d a"
      using whitespace_cover by blast
    then show False using image_clear [OF assms(2) False, of a] by simp
  qed
qed

lemma unicode_table_stable: "case_table_stable unicode_table"
  unfolding case_table_stable_def
  using unicode_table_fixed unicode_table_not_whitespace unicode_table_nonempty
  by (metis hd_in_set last_in_set)

text \<open>
  Claim C9. Trimming and then upper-casing is idempotent: under the runtime's case
  table, normalising a normalised string changes nothing, for every string. The input
  \<open>"abcde"\<close> yields the key \<open>"ABCDE"\<close>, which is the \<open>gameID\<close> of the handler for
  that input in every environment.
\<close>

theorem C9_normalization_idempotent:
  "normalizeGameID unicode_table (normalizeGameID unicode_table s)
     = normalizeGameID unicode_table s
   \<and> normalizeGameID unicode_table (lit ''abcde'') = lit ''ABCDE''
   \<and> gameID_of E (Some (EntryString (lit ''abcde''))) = lit ''ABCDE''"
proof -
  have "normalizeGameID tbl (lit ''abcde'') = lit ''ABCDE''" for tbl
    by (simp add: normalizeGameID_def toUpperCase_def trim_def lit_def is_whitespace_def
        upper_cp_def)
  then show ?thesis
    by (simp add: normalizeGameID_idem [OF unicode_table_stable] gameID_of_def)
qed

text \<open>
  Claim C9 on the string of the code points 32, 223, 383, 64257, 257, 32 (space, sharp s,
  long s, the ligature fi, a with macron, space): the key is \<open>SSSFI\<close> followed by
  capital a with macron, and normalising it again changes nothing.
\<close>

theorem C9_normalization_idempotent_witness:
  "normalizeGameID unicode_table [32, 223, 383, 64257, 257, 32] = [83, 83, 83, 70, 73, 256]
   \<and> normalizeGameID unicode_table [83, 83, 83, 70, 73, 256] = [83, 83, 83, 70, 73, 256]"
proof -
  have v: "normalizeGameID unicode_table [32, 223, 383, 64257, 257, 32]
             = [83, 83, 83, 70, 73, 256]"
    by (simp add: normalizeGameID_def toUpperCase_def trim_def is_whitespace_def upper_cp_def
        unicode_table_def special_upper_def simple_upper_def)
  show ?thesis
    using C9_normalization_idempotent [of "[32, 223, 383, 64257, 257, 32]"] v
    by simp
qed

section \<open>The submit handler: evaluation and examples\<close>

lemmas handler_defs = trace_def returns_def state_after_def onSubmit_def try_block_def
  catch_block_def finally_block_def run_def Let_def

lemmas example_defs = example_env_def broken_router_env_def example_lookup_def
  validateGameID_spec_def is_letter_def gameID_of_def normalizeGameID_def toUpperCase_def
  trim_def lit_def is_whitespace_def upper_cp_def game_path_def

lemma gameID_abcde:
  "gameID_of example_env (Some (EntryString (lit '' abcde ''))) = lit ''ABCDE''"
  by (simp add: example_defs)

lemma gameID_abc:
  "gameID_of example_env (Some (EntryString (lit ''abc''))) = lit ''ABC''"
  by (simp add: example_defs)

lemma gameID_zzzzz:
  "gameID_of example_env (Some (EntryString (lit ''zzzzz''))) = lit ''ZZZZZ''"
  by (simp add: example_defs)

lemma gameID_qqqqq:
  "gameID_of example_env (Some (EntryString (lit ''QQQQQ''))) = lit ''QQQQQ''"
  by (simp add: example_defs)

lemma gameID_broken:
  "gameID_of broken_router_env v = gameID_of example_env v"
  by (simp add: gameID_of_def broken_router_env_def example_env_def split: option.split)

lemma valid_abcde: "validateGameID example_env (lit ''ABCDE'')"
  by (simp add: example_defs)

lemma valid_zzzzz: "validateGameID example_env (lit ''ZZZZZ'')"
  by (simp add: example_defs)

lemma valid_qqqqq: "validateGameID example_env (lit ''QQQQQ'')"
  by (simp add: example_defs)

lemma lookup_abcde:
  "getGameMetadata example_env (lit ''ABCDE'') = Resolves (Metadata \<lparr> game_type = lit ''trivia'' \<rparr>)"
  by (simp add: example_defs)

lemma lookup_zzzzz: "getGameMetadata example_env (lit ''ZZZZZ'') = Resolves Null"
  by (simp add: example_defs)

lemma lookup_qqqqq:
  "getGameMetadata example_env (lit ''QQQQQ'') = Rejects (Thrown ''network failure'')"
  by (simp add: example_defs)

lemma path_trivia: "lit ''/'' @ lit ''trivia'' @ lit ''/'' @ lit ''ABCDE'' = lit ''/trivia/ABCDE''"
  by (simp add: lit_def)

text \<open>
  Claim C1. When the normalised input fails \<open>validateGameID\<close>, the handler performs
  exactly three effects, the last of which sets the error map to
  \<open>{GameID: "Game IDs need to be a 5 letter string."}\<close>; it never calls
  \<open>getGameMetadata\<close>, never sets the loading flag to true, leaves the flag as it was,
  and returns. This holds for every validator, every lookup and every router.
\<close>

theorem C1_invalid_shape:
  assumes "\<not> validateGameID E (gameID_of E formInput)"
  shows "trace E formInput =
           [PreventDefault, ConsoleLog (LogGameID (gameID_of E formInput)),
            SetErrors [''GameID'' \<mapsto> ''Game IDs need to be a 5 letter string.'']]
         \<and> errors (state_after E formInput s) =
             [''GameID'' \<mapsto> ''Game IDs need to be a 5 letter string.'']
         \<and> \<not> list_ex is_lookup (trace E formInput)
         \<and> SetIsLoading True \<notin> set (trace E formInput)
         \<and> isLoading (state_after E formInput s) = isLoading s
         \<and> returns E formInput"
  using assms by (simp add: handler_defs is_lookup_def)

text \<open>
  Claim C1 on the input \<open>"abc"\<close>, which the validator of the specification rejects.
\<close>

theorem C1_invalid_shape_witness:
  "\<not> validateGameID example_env (gameID_of example_env (Some (EntryString (lit ''abc''))))
   \<and> trace example_env (Some (EntryString (lit ''abc''))) =
       [PreventDefault, ConsoleLog (LogGameID (lit ''ABC'')),
        SetErrors [''GameID'' \<mapsto> ''Game IDs need to be a 5 letter string.'']]
   \<and> state_after example_env (Some (EntryString (lit ''abc''))) initial_state =
       \<lparr> isLoading = False,
         errors = [''GameID'' \<mapsto> ''Game IDs need to be a 5 letter string.''] \<rparr>"
proof -
  have h: "\<not> validateGameID example_env (gameID_of example_env (Some (EntryString (lit ''abc''))))"
    by (simp add: example_defs)
  show ?thesis
    using h C1_invalid_shape [OF h, of initial_state]
    by (simp add: gameID_abc initial_state_def state_after_def run_def)
qed

text \<open>
  Claim C2. When the normalised input passes validation and the lookup resolves to a
  metadata object, the handler calls \<open>router.push\<close> exactly once, with the path
  \<open>/{game_type}/{gameID}\<close> built from the metadata's \<open>game_type\<close> and the normalised
  input; it returns, and the loading flag is false afterwards.
\<close>

theorem C2_navigates_once:
  assumes "validateGameID E (gameID_of E formInput)"
    and "getGameMetadata E (gameID_of E formInput) = Resolves (Metadata m)"
  shows "filter is_navigation (trace E formInput) =
           [RouterPush (lit ''/'' @ game_type m @ lit ''/'' @ gameID_of E formInput)]
         \<and> returns E formInput
         \<and> isLoading (state_after E formInput s) = False"
  using assms
  by (simp add: handler_defs is_navigation_def game_path_def split: option.split)

text \<open>
  Claim C2 on the input \<open>" abcde "\<close>: the lookup of \<open>ABCDE\<close> returns a trivia game and
  the only navigation is to \<open>/trivia/ABCDE\<close>.
\<close>

theorem C2_navigates_once_witness:
  "validateGameID example_env (gameID_of example_env (Some (EntryString (lit '' abcde ''))))
   \<and> getGameMetadata example_env (gameID_of example_env (Some (EntryString (lit '' abcde ''))))
       = Resolves (Metadata \<lparr> game_type = lit ''trivia'' \<rparr>)
   \<and> filter is_navigation (trace example_env (Some (EntryString (lit '' abcde ''))))
       = [RouterPush (lit ''/trivia/ABCDE'')]
   \<and> returns example_env (Some (EntryString (lit '' abcde '')))
   \<and> isLoading (state_after example_env (Some (EntryString (lit '' abcde ''))) initial_state)
       = False"
  using C2_navigates_once [of example_env "Some (EntryString (lit '' abcde ''))"
      "\<lparr> game_type = lit ''trivia'' \<rparr>" initial_state]
  by (simp add: gameID_abcde valid_abcde lookup_abcde path_trivia)

text \<open>
  Claim C3. When the normalised input passes validation and the lookup resolves to a
  falsy value or rejects, the error map becomes \<open>{GameID: "Invalid game ID"}\<close> and
  \<open>router.push\<close> is never called. Both kinds of failure leave the same view state.
\<close>

theorem C3_lookup_failure:
  assumes "validateGameID E (gameID_of E formInput)"
    and "(\<exists>v. getGameMetadata E (gameID_of E formInput) = Resolves v \<and> \<not> truthy v)
         \<or> (\<exists>err. getGameMetadata E (gameID_of E formInput) = Rejects err)"
  shows "state_after E formInput s =
           s\<lparr> isLoading := False, errors := [''GameID'' \<mapsto> ''Invalid game ID''] \<rparr>
         \<and> filter is_navigation (trace E formInput) = []
         \<and> returns E formInput"
  using assms
  by (auto simp: handler_defs is_navigation_def split: lookup_value.splits elim: truthy.elims)

text \<open>
  Claim C3 on \<open>"zzzzz"\<close>, whose lookup resolves to \<open>null\<close>, and on \<open>"QQQQQ"\<close>, whose
  lookup rejects: the same final state.
\<close>

theorem C3_lookup_failure_witness:
  "validateGameID example_env (gameID_of example_env (Some (EntryString (lit ''zzzzz''))))
   \<and> getGameMetadata example_env (gameID_of example_env (Some (EntryString (lit ''zzzzz''))))
       = Resolves Null
   \<and> validateGameID example_env (gameID_of example_env (Some (EntryString (lit ''QQQQQ''))))
   \<and> getGameMetadata example_env (gameID_of example_env (Some (EntryString (lit ''QQQQQ''))))
       = Rejects (Thrown ''network failure'')
   \<and> state_after example_env (Some (EntryString (lit ''zzzzz''))) initial_state
       = \<lparr> isLoading = False, errors = [''GameID'' \<mapsto> ''Invalid game ID''] \<rparr>
   \<and> state_after example_env (Some (EntryString (lit ''QQQQQ''))) initial_state
       = \<lparr> isLoading = False, errors = [''GameID'' \<mapsto> ''Invalid game ID''] \<rparr>
   \<and> filter is_navigation (trace example_env (Some (EntryString (lit ''zzzzz'')))) = []
   \<and> filter is_navigation (trace example_env (Some (EntryString (lit ''QQQQQ'')))) = []"
  using C3_lookup_failure [of example_env "Some (EntryString (lit ''zzzzz''))" initial_state]
    C3_lookup_failure [of example_env "Some (EntryString (lit ''QQQQQ''))" initial_state]
  by (simp add: gameID_zzzzz gameID_qqqqq valid_zzzzz valid_qqqqq lookup_zzzzz lookup_qqqqq
      initial_state_def)

text \<open>
  Claim C4. When the normalised input passes validation and the lookup settles
  (resolves to anything, or rejects), the handler has set the loading flag to true,
  returns, ends with the \<open>finally\<close> block, whose effect \<open>setIsLoading(false)\<close> is its
  last one, and the loading flag is false afterwards.
\<close>

theorem C4_loading_reset:
  assumes "validateGameID E (gameID_of E formInput)"
    and "getGameMetadata E (gameID_of E formInput) \<noteq> Pending"
  shows "returns E formInput
         \<and> SetIsLoading True \<in> set (trace E formInput)
         \<and> (\<exists>tr. trace E formInput = tr @ finally_block)
         \<and> last (trace E formInput) = SetIsLoading False
         \<and> isLoading (state_after E formInput s) = False"
  using assms
  by (auto simp: handler_defs split: lookup_outcome.splits lookup_value.splits option.splits)


text \<open>
  Claim C4 on \<open>"QQQQQ"\<close>, whose lookup rejects.
\<close>

theorem C4_loading_reset_witness:
  "validateGameID example_env (gameID_of example_env (Some (EntryString (lit ''QQQQQ''))))
   \<and> getGameMetadata example_env (gameID_of example_env (Some (EntryString (lit ''QQQQQ''))))
       \<noteq> Pending
   \<and> returns example_env (Some (EntryString (lit ''QQQQQ'')))
   \<and> last (trace example_env (Some (EntryString (lit ''QQQQQ'')))) = SetIsLoading False
   \<and> isLoading (state_after example_env (Some (EntryString (lit ''QQQQQ'')))
        (initial_state \<lparr> isLoading := True \<rparr>)) = False"
  using C4_loading_reset [of example_env "Some (EntryString (lit ''QQQQQ''))"
      "initial_state \<lparr> isLoading := True \<rparr>"]
  by (simp add: gameID_qqqqq valid_qqqqq lookup_qqqqq)

lemma trace_valid_prefix:
  assumes "validateGameID E (gameID_of E formInput)"
  shows "\<exists>rest. trace E formInput =
           [PreventDefault, ConsoleLog (LogGameID (gameID_of E formInput)),
            SetIsLoading True, SetErrors Map.empty, GetGameMetadata (gameID_of E formInput)]
           @ rest
         \<and> SetIsLoading True \<notin> set rest"
  using assms
  by (auto simp: handler_defs split: lookup_outcome.splits lookup_value.splits option.splits)

text \<open>
  Claim C6, amended. When the normalised input passes validation, the handler first sets
  the loading flag to true, then clears the error map, then calls \<open>getGameMetadata\<close>
  with the normalised ID: these are its third, fourth and fifth effects. The flag is set
  before the error map is cleared, not after, and both happen before the lookup.
\<close>

theorem C6_loading_then_clear_then_lookup:
  assumes "validateGameID E (gameID_of E formInput)"
  shows "take 5 (trace E formInput) =
           [PreventDefault, ConsoleLog (LogGameID (gameID_of E formInput)),
            SetIsLoading True, SetErrors Map.empty, GetGameMetadata (gameID_of E formInput)]
         \<and> occurs_before (SetIsLoading True) (SetErrors Map.empty) (trace E formInput)
         \<and> occurs_before (SetErrors Map.empty) (GetGameMetadata (gameID_of E formInput))
             (trace E formInput)
         \<and> occurs_before (SetIsLoading True) (GetGameMetadata (gameID_of E formInput))
             (trace E formInput)
         \<and> \<not> occurs_before (SetErrors Map.empty) (SetIsLoading True) (trace E formInput)"
proof -
  obtain rest where "trace E formInput =
           [PreventDefault, ConsoleLog (LogGameID (gameID_of E formInput)),
            SetIsLoading True, SetErrors Map.empty, GetGameMetadata (gameID_of E formInput)]
           @ rest" and "SetIsLoading True \<notin> set rest"
    using trace_valid_prefix [OF assms] by blast
  then show ?thesis by simp
qed

text \<open>
  Claim C6, amended, on the input \<open>"zzzzz"\<close>.
\<close>

theorem C6_loading_then_clear_then_lookup_witness:
  "validateGameID example_env (gameID_of example_env (Some (EntryString (lit ''zzzzz''))))
   \<and> take 5 (trace example_env (Some (EntryString (lit ''zzzzz'')))) =
       [PreventDefault, ConsoleLog (LogGameID (lit ''ZZZZZ'')),
        SetIsLoading True, SetErrors Map.empty, GetGameMetadata (lit ''ZZZZZ'')]
   \<and> occurs_before (SetIsLoading True) (SetErrors Map.empty)
        (trace example_env (Some (EntryString (lit ''zzzzz''))))"
  using C6_loading_then_clear_then_lookup [of example_env "Some (EntryString (lit ''zzzzz''))"]
  by (simp add: gameID_zzzzz valid_zzzzz)


text \<open>
  Claim C6 as stated fails: on the input \<open>" abcde "\<close> the error map is not cleared
  before the loading flag is set; \<open>setIsLoading(true)\<close> comes first.
\<close>

theorem C6_order_counterexample:
  "validateGameID example_env (gameID_of example_env (Some (EntryString (lit '' abcde ''))))
   \<and> trace example_env (Some (EntryString (lit '' abcde ''))) =
       [PreventDefault, ConsoleLog (LogGameID (lit ''ABCDE'')),
        SetIsLoading True, SetErrors Map.empty, GetGameMetadata (lit ''ABCDE''),
        ConsoleLog (LogMetadata (Metadata \<lparr> game_type = lit ''trivia'' \<rparr>)),
        RouterPush (lit ''/trivia/ABCDE''), SetIsLoading False]
   \<and> \<not> occurs_before (SetErrors Map.empty) (SetIsLoading True)
         (trace example_env (Some (EntryString (lit '' abcde ''))))"
proof -
  have t: "trace example_env (Some (EntryString (lit '' abcde ''))) =
       [PreventDefault, ConsoleLog (LogGameID (lit ''ABCDE'')),
        SetIsLoading True, SetErrors Map.empty, GetGameMetadata (lit ''ABCDE''),
        ConsoleLog (LogMetadata (Metadata \<lparr> game_type = lit ''trivia'' \<rparr>)),
        RouterPush (lit ''/trivia/ABCDE''), SetIsLoading False]"
    by (simp add: handler_defs gameID_abcde valid_abcde lookup_abcde game_path_def path_trivia)
       (simp add: example_env_def)
  show ?thesis by (simp add: t gameID_abcde valid_abcde)
qed

lemma trace_valid_start:
  assumes "validateGameID E (gameID_of E formInput)"
  shows "\<exists>rest. trace E formInput =
           [PreventDefault, ConsoleLog (LogGameID (gameID_of E formInput)),
            SetIsLoading True, SetErrors Map.empty] @ rest"
  using trace_valid_prefix [OF assms] by auto

lemma run_start:
  "run ([PreventDefault, ConsoleLog l, SetIsLoading True, SetErrors Map.empty] @ rest) s
     = run rest \<lparr> isLoading = True, errors = Map.empty \<rparr>"
  by (cases s) (simp add: run_def)

lemma trace_writes_errors: "list_ex is_error_write (trace E formInput)"
  by (simp add: handler_defs is_error_write_def
      split: lookup_outcome.splits lookup_value.splits option.splits)

text \<open>
  Claim C8. A write to the error map replaces it. Every submission writes the error map
  at least once, so the error map after the handler does not depend on the error map
  before it. In a submission that passes validation, the error map is empty after the
  handler's first four effects (before the lookup is called), and from then on, at every
  point of the handler, the error map is the same whatever it was before the submission.
\<close>

theorem C8_errors_replaced:
  "errors (apply_effect (SetErrors m) s) = m
   \<and> list_ex is_error_write (trace E formInput)
   \<and> errors (state_after E formInput s) = errors (state_after E formInput s')
   \<and> (validateGameID E (gameID_of E formInput) \<longrightarrow>
        errors (run (take 4 (trace E formInput)) s) = Map.empty
        \<and> (\<forall>n \<ge> 4. errors (run (take n (trace E formInput)) s)
                     = errors (run (take n (trace E formInput)) s')))"
proof -
  have 3: "errors (state_after E formInput s) = errors (state_after E formInput s')"
  proof (cases "validateGameID E (gameID_of E formInput)")
    case True
    then obtain rest where "trace E formInput =
           [PreventDefault, ConsoleLog (LogGameID (gameID_of E formInput)),
            SetIsLoading True, SetErrors Map.empty] @ rest"
      using trace_valid_start by blast
    then show ?thesis unfolding state_after_def by (simp only: run_start)
  next
    case False
    then show ?thesis by (simp add: handler_defs)
  qed
  have 4: "errors (run (take 4 (trace E formInput)) s) = Map.empty
        \<and> (\<forall>n \<ge> 4. errors (run (take n (trace E formInput)) s)
                     = errors (run (take n (trace E formInput)) s'))"
    if v: "validateGameID E (gameID_of E formInput)"
  proof -
    obtain rest where t: "trace E formInput =
           [PreventDefault, ConsoleLog (LogGameID (gameID_of E formInput)),
            SetIsLoading True, SetErrors Map.empty] @ rest"
      using trace_valid_start [OF v] by blast
    have a: "errors (run (take 4 (trace E formInput)) s) = Map.empty"
      by (simp add: t run_def)
    have b: "errors (run (take n (trace E formInput)) s)
                     = errors (run (take n (trace E formInput)) s')" if "4 \<le> n" for n
    proof -
      let ?start = "[PreventDefault, ConsoleLog (LogGameID (gameID_of E formInput)),
            SetIsLoading True, SetErrors Map.empty]"
      have "take n ?start = ?start" using that by (intro take_all) simp
      then have "take n (trace E formInput) = ?start @ take (n - length ?start) rest"
        unfolding t by (simp only: take_append)
      then show ?thesis by (simp only: run_start)
    qed
    show ?thesis using a b by blast
  qed
  have 1: "errors (apply_effect (SetErrors m) s) = m" by simp
  have 2: "list_ex is_error_write (trace E formInput)" by (rule trace_writes_errors)
  show ?thesis using 1 2 3 4 by blast
qed

text \<open>
  Claim C8 on the input \<open>"zzzzz"\<close>, starting from a state with two stale errors.
\<close>

theorem C8_errors_replaced_witness:
  "validateGameID example_env (gameID_of example_env (Some (EntryString (lit ''zzzzz''))))
   \<and> errors (run (take 4 (trace example_env (Some (EntryString (lit ''zzzzz'')))))
        \<lparr> isLoading = False, errors = [''GameID'' \<mapsto> ''stale'', ''Other'' \<mapsto> ''stale''] \<rparr>)
       = Map.empty
   \<and> errors (state_after example_env (Some (EntryString (lit ''zzzzz'')))
        \<lparr> isLoading = False, errors = [''GameID'' \<mapsto> ''stale'', ''Other'' \<mapsto> ''stale''] \<rparr>)
       = errors (state_after example_env (Some (EntryString (lit ''zzzzz''))) initial_state)
   \<and> errors (state_after example_env (Some (EntryString (lit ''zzzzz'')))
        \<lparr> isLoading = False, errors = [''GameID'' \<mapsto> ''stale'', ''Other'' \<mapsto> ''stale''] \<rparr>)
       = [''GameID'' \<mapsto> ''Invalid game ID'']"
  using C8_errors_replaced [where m = Map.empty and E = example_env
      and formInput = "Some (EntryString (lit ''zzzzz''))"
      and s = "\<lparr> isLoading = False, errors = [''GameID'' \<mapsto> ''stale'', ''Other'' \<mapsto> ''stale''] \<rparr>"
      and s' = initial_state]
  by (simp add: gameID_zzzzz valid_zzzzz)
     (simp add: handler_defs gameID_zzzzz valid_zzzzz lookup_zzzzz)

text \<open>
  Claim C10. When the lookup has resolved to a metadata object and \<open>router.push\<close>
  throws, the \<open>catch\<close> block runs: the thrown value is logged, the error map becomes
  \<open>{GameID: "Invalid game ID"}\<close>, the loading flag is reset, and the handler returns.
\<close>

theorem C10_navigation_throw:
  assumes "validateGameID E (gameID_of E formInput)"
    and "getGameMetadata E (gameID_of E formInput) = Resolves (Metadata m)"
    and "router_push E (game_path m (gameID_of E formInput)) = Some err"
  shows "trace E formInput =
           [PreventDefault, ConsoleLog (LogGameID (gameID_of E formInput)),
            SetIsLoading True, SetErrors Map.empty, GetGameMetadata (gameID_of E formInput),
            ConsoleLog (LogMetadata (Metadata m)),
            RouterPush (game_path m (gameID_of E formInput)),
            ConsoleLog (LogError err), SetErrors [''GameID'' \<mapsto> ''Invalid game ID''],
            SetIsLoading False]
         \<and> state_after E formInput s =
             s\<lparr> isLoading := False, errors := [''GameID'' \<mapsto> ''Invalid game ID''] \<rparr>
         \<and> returns E formInput"
  using assms by (simp add: handler_defs)

text \<open>
  Claim C10 on the input \<open>" abcde "\<close> with a router whose \<open>push\<close> throws.
\<close>

theorem C10_navigation_throw_witness:
  "validateGameID broken_router_env
     (gameID_of broken_router_env (Some (EntryString (lit '' abcde ''))))
   \<and> getGameMetadata broken_router_env
       (gameID_of broken_router_env (Some (EntryString (lit '' abcde ''))))
       = Resolves (Metadata \<lparr> game_type = lit ''trivia'' \<rparr>)
   \<and> router_push broken_router_env (lit ''/trivia/ABCDE'') = Some (Thrown ''push failed'')
   \<and> state_after broken_router_env (Some (EntryString (lit '' abcde ''))) initial_state
       = \<lparr> isLoading = False, errors = [''GameID'' \<mapsto> ''Invalid game ID''] \<rparr>
   \<and> filter is_navigation (trace broken_router_env (Some (EntryString (lit '' abcde ''))))
       = [RouterPush (lit ''/trivia/ABCDE'')]"
proof -
  have g: "gameID_of broken_router_env (Some (EntryString (lit '' abcde ''))) = lit ''ABCDE''"
    by (simp add: gameID_broken gameID_abcde)
  have v: "validateGameID broken_router_env (lit ''ABCDE'')"
    using valid_abcde by (simp add: broken_router_env_def example_env_def)
  have l: "getGameMetadata broken_router_env (lit ''ABCDE'')
             = Resolves (Metadata \<lparr> game_type = lit ''trivia'' \<rparr>)"
    using lookup_abcde by (simp add: broken_router_env_def example_env_def)
  have p: "router_push broken_router_env p = Some (Thrown ''push failed'')" for p
    by (simp add: broken_router_env_def)
  have gp: "game_path \<lparr> game_type = lit ''trivia'' \<rparr> (lit ''ABCDE'') = lit ''/trivia/ABCDE''"
    by (simp add: game_path_def path_trivia)
  show ?thesis
    using C10_navigation_throw [of broken_router_env "Some (EntryString (lit '' abcde ''))"
        "\<lparr> game_type = lit ''trivia'' \<rparr>" "Thrown ''push failed''" initial_state]
    by (simp add: g v l p gp initial_state_def is_navigation_def)
qed

lemma awaiting_is_loading:
  assumes "validateGameID E (gameID_of E formInput)"
  shows "isLoading (run (take 5 (trace E formInput)) s)"
proof -
  obtain rest where "trace E formInput =
           [PreventDefault, ConsoleLog (LogGameID (gameID_of E formInput)),
            SetIsLoading True, SetErrors Map.empty, GetGameMetadata (gameID_of E formInput)]
           @ rest"
    using trace_valid_prefix [OF assms] by blast
  then show ?thesis by (simp add: run_def)
qed

lemma settled_is_not_loading:
  assumes "validateGameID E (gameID_of E formInput)"
    and "getGameMetadata E (gameID_of E formInput) \<noteq> Pending"
  shows "\<not> isLoading (state_after E formInput s)"
  using assms
  by (auto simp: handler_defs split: lookup_outcome.splits lookup_value.splits option.splits)

text \<open>
  Claim C7. In what \<open>JoinGameButton\<close> renders, the text input is disabled exactly when
  the loading flag is true, and so is the submit button. So, in a submission that passes
  validation, both are disabled in the state in which the handler awaits the lookup
  (after its first five effects), and both are enabled again in the state the handler
  leaves once the lookup has settled.
\<close>

theorem C7_disabled_while_loading:
  "input_disabled (JoinGameButton s) = isLoading s
   \<and> button_disabled (JoinGameButton s) = isLoading s
   \<and> (validateGameID E (gameID_of E formInput) \<longrightarrow>
        input_disabled (JoinGameButton (run (take 5 (trace E formInput)) s'))
        \<and> button_disabled (JoinGameButton (run (take 5 (trace E formInput)) s'))
        \<and> (getGameMetadata E (gameID_of E formInput) \<noteq> Pending \<longrightarrow>
             \<not> input_disabled (JoinGameButton (state_after E formInput s'))
             \<and> \<not> button_disabled (JoinGameButton (state_after E formInput s'))))"
proof -
  have r: "input_disabled (JoinGameButton t) = isLoading t
           \<and> button_disabled (JoinGameButton t) = isLoading t" for t
    by (simp add: input_disabled_def button_disabled_def JoinGameButton_def)
  show ?thesis
    using r awaiting_is_loading [of E formInput s'] settled_is_not_loading [of E formInput s']
    by blast
qed

text \<open>
  Claim C7 on the input \<open>"QQQQQ"\<close>, whose lookup rejects: disabled while the lookup
  is awaited, enabled afterwards.
\<close>

theorem C7_disabled_while_loading_witness:
  "validateGameID example_env (gameID_of example_env (Some (EntryString (lit ''QQQQQ''))))
   \<and> getGameMetadata example_env (gameID_of example_env (Some (EntryString (lit ''QQQQQ''))))
       \<noteq> Pending
   \<and> input_disabled (JoinGameButton
        (run (take 5 (trace example_env (Some (EntryString (lit ''QQQQQ''))))) initial_state))
   \<and> button_disabled (JoinGameButton
        (run (take 5 (trace example_env (Some (EntryString (lit ''QQQQQ''))))) initial_state))
   \<and> \<not> input_disabled (JoinGameButton
        (state_after example_env (Some (EntryString (lit ''QQQQQ''))) initial_state))
   \<and> \<not> button_disabled (JoinGameButton
        (state_after example_env (Some (EntryString (lit ''QQQQQ''))) initial_state))"
proof -
  have v: "validateGameID example_env
             (gameID_of example_env (Some (EntryString (lit ''QQQQQ''))))"
    by (simp add: gameID_qqqqq valid_qqqqq)
  have l: "getGameMetadata example_env
             (gameID_of example_env (Some (EntryString (lit ''QQQQQ'')))) \<noteq> Pending"
    by (simp add: gameID_qqqqq lookup_qqqqq)
  show ?thesis
    using v l C7_disabled_while_loading [where E = example_env
        and formInput = "Some (EntryString (lit ''QQQQQ''))" and s' = initial_state
        and s = initial_state]
    by blast
qed

text \<open>
  Claim C5, amended. \<open>Providers\<close> wraps the children in three nested scopes, theming,
  user and game, in this order. The toast provider is an element without children,
  inside the theming scope and before the user scope; it encloses nothing.
\<close>

theorem C5_toast_is_a_sibling:
  "Providers push children =
     Element HeroUIProvider [(''navigate'', push)]
       [Element ToastProvider [] [],
        Element UserProvider [] [Element GameProvider [] [Children children]]]
   \<and> encloses HeroUIProvider (Element ToastProvider [] []) (Providers push children)
   \<and> encloses HeroUIProvider
       (Element UserProvider [] [Element GameProvider [] [Children children]])
       (Providers push children)
   \<and> encloses UserProvider (Element GameProvider [] [Children children])
       (Providers push children)
   \<and> encloses GameProvider (Children children) (Providers push children)
   \<and> nested_in_order [UserProvider, GameProvider] children
       (Element UserProvider [] [Element GameProvider [] [Children children]])
   \<and> (\<forall>n. \<not> encloses ToastProvider n (Providers push children))"
  by (simp add: Providers_def encloses_def)

text \<open>
  Claim C5 as stated fails: for the content \<open>page\<close> the tree is not the content wrapped
  in the four scopes theming, toast, user, game, and the toast element encloses neither
  the content nor the game scope nor the user scope.
\<close>

theorem C5_nesting_counterexample:
  "\<not> nested_in_order [HeroUIProvider, ToastProvider, UserProvider, GameProvider] ''page''
       (Providers (router_push example_env) ''page'')
   \<and> \<not> encloses ToastProvider (Children ''page'') (Providers (router_push example_env) ''page'')
   \<and> \<not> encloses ToastProvider (Element GameProvider [] [Children ''page''])
         (Providers (router_push example_env) ''page'')
   \<and> \<not> encloses ToastProvider
         (Element UserProvider [] [Element GameProvider [] [Children ''page'']])
         (Providers (router_push example_env) ''page'')"
  by (simp add: Providers_def encloses_def)

end
